theory Spec2Isabelle
  imports Main "HOL-Library.Multiset" "HOL-Library.Word"
begin

text \<open>
  A shallow embedding of \<^verbatim>\<open>code/parallel_quick_sort_stack.hpp\<close>: the mutex-guarded
  \<^verbatim>\<open>ConcurrentStack\<close>, the \<^verbatim>\<open>sorter\<close> that publishes the lower partition of
  every quicksort step on that stack and sorts chunks from it while it waits, and the entry
  point \<^verbatim>\<open>parallel_quick_sort\<close>. Elements are of a linearly ordered type and are
  compared with \<open><\<close> only, as in the source.

  The embedding is sequential. The functions of the sorter are those of one thread running
  on the state of the session; what another thread does in between is a change of the
  state they are started from.
\<close>

section \<open>Errors\<close>

text \<open>
  The exceptions a run of \<^verbatim>\<open>parallel_quick_sort_stack.hpp\<close> can raise.
  \<open>EmptyStack\<close> is the repository's own \<^verbatim>\<open>struct EmptyStack : std::exception\<close>;
  \<open>PromiseAlreadySatisfied\<close> is the \<^verbatim>\<open>std::future_error\<close> that
  \<^verbatim>\<open>std::promise::set_value\<close> throws on a shared state that already holds a value.
  Failure to allocate memory or to create a thread is not modelled.
\<close>

datatype error = EmptyStack | PromiseAlreadySatisfied

section \<open>ConcurrentStack\<close>

text \<open>
  \<^verbatim>\<open>template <typename T> class ConcurrentStack\<close>: the member \<^verbatim>\<open>s_\<close> (here
  \<open>s_stk\<close>, a name cannot end in an underscore) is a \<^verbatim>\<open>std::stack<T>\<close>, here a list
  whose head is the top. Every member function holds the mutex \<^verbatim>\<open>m_\<close> for its whole
  body, so each one is a single atomic step on \<open>s_stk\<close>; the mutex itself carries no data.

  A \<^verbatim>\<open>std::shared_ptr<T>\<close> is an \<open>'a option\<close>, with \<open>None\<close> the null pointer.
\<close>

record 'a ConcurrentStack =
  s_stk :: "'a list"

definition ConcurrentStack_ctor :: "'a ConcurrentStack" where
  "ConcurrentStack_ctor = \<lparr>s_stk = []\<rparr>"

definition push :: "'a \<Rightarrow> 'a ConcurrentStack \<Rightarrow> 'a ConcurrentStack" where
  "push n st = st\<lparr>s_stk := n # s_stk st\<rparr>"

definition empty_stack :: "'a ConcurrentStack \<Rightarrow> bool" where
  "empty_stack st = (s_stk st = [])"

text \<open>
  \<^verbatim>\<open>std::shared_ptr<T> pop()\<close>: throws on the empty stack, otherwise moves the top into a
  fresh \<^verbatim>\<open>make_shared\<close> object (never null) and removes it.
\<close>

definition pop :: "'a ConcurrentStack \<Rightarrow> error + ('a option \<times> 'a ConcurrentStack)" where
  "pop st =
     (case s_stk st of
        [] \<Rightarrow> Inl EmptyStack
      | t # below \<Rightarrow> Inr (Some t, st\<lparr>s_stk := below\<rparr>))"

text \<open>
  \<^verbatim>\<open>void pop(T& res)\<close>: the same, the top moved into the caller's variable; the second
  argument is the old value of \<open>res\<close>, which is overwritten.
\<close>

definition pop_ref :: "'a ConcurrentStack \<Rightarrow> 'a \<Rightarrow> error + ('a \<times> 'a ConcurrentStack)" where
  "pop_ref st res =
     (case s_stk st of
        [] \<Rightarrow> Inl EmptyStack
      | t # below \<Rightarrow> Inr (t, st\<lparr>s_stk := below\<rparr>))"

section \<open>The sorter\<close>

text \<open>
  \<^verbatim>\<open>struct chunk_to_sort\<close>: the list to sort and the promise of the sorted list. A
  promise and the future obtained from it share one state; the model keeps these shared
  states in a store and a promise or future is the address of its state.
\<close>

record 'a chunk_to_sort =
  data :: "'a list"
  promise :: nat

text \<open>
  \<^verbatim>\<open>struct sorter\<close>. \<open>threads\<close> is \<^verbatim>\<open>threads.size()\<close>, the only thing the code reads
  of the vector; \<open>max_thread_count\<close> is a \<^verbatim>\<open>const unsigned\<close>, 32 bits wide. The last two
  fields are not members of the struct: \<open>promises\<close> is the store of shared states (\<open>None\<close>:
  no value yet, the future is not ready) and \<open>next_promise\<close> the next unused address.
\<close>

record 'a sorter =
  chunks :: "'a chunk_to_sort ConcurrentStack"
  threads :: nat
  max_thread_count :: "32 word"
  end_of_data :: bool
  promises :: "nat \<Rightarrow> 'a list option"
  next_promise :: nat

text \<open>
  The constructor; its argument is what \<^verbatim>\<open>std::thread::hardware_concurrency()\<close>
  returns (an \<^verbatim>\<open>unsigned\<close>). The subtraction is the unsigned one of the source.
\<close>

definition sorter_ctor :: "32 word \<Rightarrow> 'a sorter" where
  "sorter_ctor hardware_concurrency =
     \<lparr>chunks = ConcurrentStack_ctor, threads = 0,
      max_thread_count = hardware_concurrency - 1, end_of_data = False,
      promises = (\<lambda>_. None), next_promise = 0\<rparr>"

text \<open>
  The destructor sets the stop flag and joins the workers; a worker that has not run yet
  then finds the flag set and leaves its loop at once.
\<close>

definition sorter_dtor :: "'a sorter \<Rightarrow> 'a sorter" where
  "sorter_dtor s = s\<lparr>end_of_data := True\<rparr>"

subsection \<open>std::partition\<close>

text \<open>
  \<^verbatim>\<open>std::partition\<close> belongs to the C++ standard library, not to the repository. On the
  bidirectional iterators of a \<^verbatim>\<open>std::list\<close> the library runs two cursors towards each
  other: \<open>first\<close> skips elements that satisfy the predicate, \<open>last\<close> skips, from the
  back, elements that do not, the two elements they stop at are swapped, and the scan goes
  on between them. The result is the pair of the range before the returned iterator and
  the range from it on.
\<close>

function std_partition :: "('a \<Rightarrow> bool) \<Rightarrow> 'a list \<Rightarrow> 'a list \<times> 'a list" where
  "std_partition pred [] = ([], [])"
| "std_partition pred (x # xs) =
     (if pred x then
        (case std_partition pred xs of (lo, hi) \<Rightarrow> (x # lo, hi))
      else
        (case dropWhile (\<lambda>y. \<not> pred y) (rev xs) of
           [] \<Rightarrow> ([], x # xs)
         | y # ys \<Rightarrow>
             (case std_partition pred (rev ys) of
                (lo, hi) \<Rightarrow> (y # lo, hi @ x # rev (takeWhile (\<lambda>y. \<not> pred y) (rev xs))))))"
  by pat_completeness auto
termination
proof (relation "measure (\<lambda>(pred, xs). length xs)")
  fix pred :: "'a \<Rightarrow> bool" and x xs y ys
  assume "dropWhile (\<lambda>y. \<not> pred y) (rev xs) = y # ys"
  then have "length (y # ys) \<le> length (rev xs)"
    by (metis length_dropWhile_le)
  then show "((pred, rev ys), (pred, x # xs)) \<in> measure (\<lambda>(pred, xs). length xs)"
    by simp
qed simp_all

subsection \<open>do\_sort\<close>

text \<open>
  Lines 99 to 108 of \<^verbatim>\<open>sorter::do_sort\<close>, after the first element \<open>firstVal\<close> has been
  spliced out of \<open>v\<close> into \<open>res\<close>: partition what is left of \<open>v\<close> by
  \<^verbatim>\<open>val < firstVal\<close>, splice the front range into the data of a new chunk \<open>low\<close> (its
  promise has a fresh shared state, whose address is also the future \<open>l\<close>), push the
  chunk, and start one more worker when \<^verbatim>\<open>threads.size() < max_thread_count\<close>. The
  result is the future \<open>l\<close>, what is left of \<open>v\<close>, and the new state.

  A worker that is started is only counted, it is not run: \<open>do_sort\<close> below follows the
  calling thread as long as no worker takes a step. With a hardware concurrency of 1 no
  worker is ever started and these are all the runs. A step of a worker is
  \<open>sort_thread\<close> (or the \<open>pop\<close> in it) applied to the state the calling thread has
  reached.
\<close>

definition do_sort_publish ::
    "'a::linorder sorter \<Rightarrow> 'a \<Rightarrow> 'a list \<Rightarrow> nat \<times> 'a list \<times> 'a sorter" where
  "do_sort_publish s firstVal v =
     (case std_partition (\<lambda>val. val < firstVal) v of
        (low_data, v') \<Rightarrow>
          let l = next_promise s;
              low = \<lparr>data = low_data, promise = l\<rparr>;
              s1 = s\<lparr>promises := (promises s)(l := None), next_promise := Suc l\<rparr>;
              s2 = s1\<lparr>chunks := push low (chunks s1)\<rparr>;
              s3 = (if threads s2 < unat (max_thread_count s2)
                    then s2\<lparr>threads := Suc (threads s2)\<rparr> else s2)
          in (l, v', s3))"

text \<open>
  \<^verbatim>\<open>promise.set_value(x)\<close> on the shared state at address \<open>p\<close>.
\<close>

definition set_value :: "nat \<Rightarrow> 'a list \<Rightarrow> 'a sorter \<Rightarrow> error + 'a sorter" where
  "set_value p x s =
     (case promises s p of
        Some _ \<Rightarrow> Inl PromiseAlreadySatisfied
      | None \<Rightarrow> Inr (s\<lparr>promises := (promises s)(p \<mapsto> x)\<rparr>))"

text \<open>
  \<^verbatim>\<open>do_sort\<close>, the loop in it that polls the future (\<open>do_sort_wait\<close>, lines 111 to 113),
  \<^verbatim>\<open>try_sort_chunk\<close> and \<^verbatim>\<open>sort_chunk\<close> call each other. Nothing in the source
  bounds the polling loop, so the functions take fuel: the first argument bounds the depth
  of calls and loop iterations, and \<open>None\<close> is a run that has not returned within it.
  \<open>Some (Inl e)\<close> is the exception \<open>e\<close> leaving the function, \<open>Some (Inr r)\<close> a
  normal return.

  \<open>do_sort\<close> returns the sorted list with the state; its argument \<open>v\<close> is a reference
  in the source and is left empty there, which no caller looks at. \<^verbatim>\<open>l.get()\<close> on a
  future that is not ready would wait for ever (\<open>None\<close>).
\<close>

fun do_sort :: "nat \<Rightarrow> 'a::linorder sorter \<Rightarrow> 'a list \<Rightarrow> (error + 'a list \<times> 'a sorter) option"
  and do_sort_wait :: "nat \<Rightarrow> 'a sorter \<Rightarrow> nat \<Rightarrow> (error + 'a sorter) option"
  and try_sort_chunk :: "nat \<Rightarrow> 'a sorter \<Rightarrow> (error + 'a sorter) option"
  and sort_chunk :: "nat \<Rightarrow> 'a sorter \<Rightarrow> 'a chunk_to_sort \<Rightarrow> (error + 'a sorter) option"
where
  "do_sort 0 s v = None"
| "do_sort (Suc n) s v =
     (case v of
        [] \<Rightarrow> Some (Inr (v, s))
      | firstVal # v1 \<Rightarrow>
          (case do_sort_publish s firstVal v1 of
             (l, v2, s2) \<Rightarrow>
               (case do_sort n s2 v2 of
                  None \<Rightarrow> None
                | Some (Inl e) \<Rightarrow> Some (Inl e)
                | Some (Inr (r, s3)) \<Rightarrow>
                    (case do_sort_wait n s3 l of
                       None \<Rightarrow> None
                     | Some (Inl e) \<Rightarrow> Some (Inl e)
                     | Some (Inr s4) \<Rightarrow>
                         (case promises s4 l of
                            None \<Rightarrow> None
                          | Some sorted_low \<Rightarrow> Some (Inr (sorted_low @ ([firstVal] @ r), s4)))))))"
| "do_sort_wait 0 s l = None"
| "do_sort_wait (Suc n) s l =
     (case promises s l of
        Some _ \<Rightarrow> Some (Inr s)
      | None \<Rightarrow>
          (case try_sort_chunk n s of
             None \<Rightarrow> None
           | Some (Inl e) \<Rightarrow> Some (Inl e)
           | Some (Inr s') \<Rightarrow> do_sort_wait n s' l))"
| "try_sort_chunk n s =
     (case pop (chunks s) of
        Inl e \<Rightarrow> Some (Inl e)
      | Inr (chunk, st) \<Rightarrow>
          (case chunk of
             None \<Rightarrow> Some (Inr (s\<lparr>chunks := st\<rparr>))
           | Some c \<Rightarrow> sort_chunk n (s\<lparr>chunks := st\<rparr>) c))"
| "sort_chunk n s chunk =
     (case do_sort n s (data chunk) of
        None \<Rightarrow> None
      | Some (Inl e) \<Rightarrow> Some (Inl e)
      | Some (Inr (res, s')) \<Rightarrow> Some (set_value (promise chunk) res s'))"

text \<open>
  \<^verbatim>\<open>sorter::sort_thread\<close>, the loop of a worker, run on its own from the state \<open>s\<close>:
  no other thread changes the state between two of its polls. \<^verbatim>\<open>yield\<close> changes nothing.
\<close>

fun sort_thread :: "nat \<Rightarrow> 'a::linorder sorter \<Rightarrow> (error + 'a sorter) option" where
  "sort_thread 0 s = None"
| "sort_thread (Suc n) s =
     (if end_of_data s then Some (Inr s)
      else
        (case try_sort_chunk n s of
           None \<Rightarrow> None
         | Some (Inl e) \<Rightarrow> Some (Inl e)
         | Some (Inr s') \<Rightarrow> sort_thread n s'))"

subsection \<open>parallel\_quick\_sort\<close>

text \<open>
  The result is the sorted list and the sorter session the call has constructed and
  destroyed, if it has constructed one. The second argument is the hardware concurrency
  of the machine.

  This is the calling thread running alone. It is the whole program when the hardware
  concurrency is 1; otherwise it is the one run in which no worker takes a step before the
  destructor has set the stop flag, and says nothing of the other runs.
\<close>

definition parallel_quick_sort ::
    "nat \<Rightarrow> 32 word \<Rightarrow> 'a::linorder list \<Rightarrow> (error + 'a list \<times> 'a sorter option) option" where
  "parallel_quick_sort fuel hardware_concurrency v =
     (if v = [] then Some (Inr (v, None))
      else
        (case do_sort fuel (sorter_ctor hardware_concurrency) v of
           None \<Rightarrow> None
         | Some (Inl e) \<Rightarrow> Some (Inl e)
         | Some (Inr (res, s')) \<Rightarrow> Some (Inr (res, Some (sorter_dtor s')))))"

section \<open>ConcurrentStack: properties\<close>

text \<open>
  C8: \<open>pop\<close> on an empty stack raises \<open>EmptyStack\<close> and returns no value; on a stack
  that is not empty it returns the top element (a pointer that is not null) and leaves the
  elements below; after a \<open>push\<close> the top is the element just pushed. Both overloads of
  \<open>pop\<close> behave so.
\<close>

theorem pop_empty_raises_nonempty_returns_top:
  "pop \<lparr>s_stk = []\<rparr> = Inl EmptyStack
   \<and> pop \<lparr>s_stk = x # xs\<rparr> = Inr (Some x, \<lparr>s_stk = xs\<rparr>)
   \<and> pop (push x st) = Inr (Some x, st)
   \<and> pop_ref \<lparr>s_stk = []\<rparr> r = Inl EmptyStack
   \<and> pop_ref \<lparr>s_stk = x # xs\<rparr> r = Inr (x, \<lparr>s_stk = xs\<rparr>)
   \<and> pop_ref (push x st) r = Inr (x, st)
   \<and> (empty_stack st \<longleftrightarrow> pop st = Inl EmptyStack)"
  by (cases st) (simp add: pop_def pop_ref_def push_def empty_stack_def split: list.split)

section \<open>std::partition: the two ranges\<close>

text \<open>
  The contract of \<^verbatim>\<open>std::partition\<close>: the front range holds exactly the elements that
  satisfy the predicate and the back range exactly the others, each as often as the input
  does. The order inside a range is not that of the input.
\<close>

lemma mset_std_partition:
  "mset (fst (std_partition pred xs)) = filter_mset pred (mset xs)
   \<and> mset (snd (std_partition pred xs)) = filter_mset (\<lambda>x. \<not> pred x) (mset xs)"
proof (induction pred xs rule: std_partition.induct)
  case (1 pred)
  show ?case by simp
next
  case (2 pred x xs)
  show ?case
  proof (cases "pred x")
    case True
    with 2(1) show ?thesis
      by (simp add: case_prod_beta)
  next
    case False
    let ?Q = "\<lambda>y. \<not> pred y"
    define tw where "tw = takeWhile ?Q (rev xs)"
    define dw where "dw = dropWhile ?Q (rev xs)"
    have unfolded: "std_partition pred (x # xs) =
        (case dw of [] \<Rightarrow> ([], x # xs)
         | y # ys \<Rightarrow> (case std_partition pred (rev ys) of (lo, hi) \<Rightarrow> (y # lo, hi @ x # rev tw)))"
      using False unfolding tw_def dw_def by simp
    have split_rev: "mset xs = mset tw + mset dw"
      unfolding tw_def dw_def by (metis mset_append mset_rev takeWhile_dropWhile_id)
    have tw_no: "filter_mset pred (mset tw) = {#}"
      unfolding tw_def by (auto dest: set_takeWhileD)
    have tw_all: "filter_mset ?Q (mset tw) = mset tw"
      unfolding tw_def by (auto simp: filter_mset_eq_conv dest: set_takeWhileD)
    show ?thesis
    proof (cases dw)
      case Nil
      with False split_rev tw_no tw_all show ?thesis
        unfolding unfolded by simp
    next
      case (Cons y ys)
      then have py: "pred y"
        unfolding dw_def by (metis hd_dropWhile list.distinct(1) list.sel(1))
      from Cons have "dropWhile ?Q (rev xs) = y # ys"
        by (simp add: dw_def)
      from 2(2) [OF False this]
      have IH: "mset (fst (std_partition pred (rev ys))) = filter_mset pred (mset ys)"
        "mset (snd (std_partition pred (rev ys))) = filter_mset ?Q (mset ys)"
        by simp_all
      from False Cons py IH split_rev tw_no tw_all show ?thesis
        unfolding unfolded by (simp add: case_prod_beta)
    qed
  qed
qed

lemma std_partition_parts:
  assumes "std_partition pred xs = (lo, hi)"
  shows "mset lo = filter_mset pred (mset xs)"
    and "mset hi = filter_mset (\<lambda>x. \<not> pred x) (mset xs)"
    and "length lo + length hi = length xs"
proof -
  from mset_std_partition [of pred xs] assms
  show lo: "mset lo = filter_mset pred (mset xs)"
    and hi: "mset hi = filter_mset (\<lambda>x. \<not> pred x) (mset xs)"
    by simp_all
  have "size (mset lo) + size (mset hi) = size (mset xs)"
    unfolding lo hi by (metis multiset_partition size_union)
  then show "length lo + length hi = length xs"
    by simp
qed

text \<open>
  Sorting the two ranges cut by \<open>val < x\<close> and putting \<open>x\<close> between them sorts
  \<open>x # xs\<close>.
\<close>

lemma sorted_around_pivot:
  fixes x :: "'a::linorder"
  assumes "mset lo = filter_mset (\<lambda>y. y < x) (mset xs)"
    and "mset hi = filter_mset (\<lambda>y. \<not> y < x) (mset xs)"
  shows "sort lo @ [x] @ sort hi = sort (x # xs)"
proof -
  have below: "\<forall>y\<in>set lo. y < x"
    using assms(1) by (metis (mono_tags, lifting) mem_Collect_eq set_mset_filter set_mset_mset)
  have above: "\<forall>y\<in>set hi. x \<le> y"
    using assms(2) by (metis (mono_tags, lifting) mem_Collect_eq set_mset_filter set_mset_mset not_less)
  have "mset (sort lo @ [x] @ sort hi) = mset (x # xs)"
    using assms multiset_partition [of "mset xs" "\<lambda>y. y < x"] by simp
  moreover have "sorted (sort lo @ [x] @ sort hi)"
    using below above by (fastforce simp: sorted_append)
  ultimately show ?thesis
    by (metis properties_for_sort)
qed

section \<open>do\_sort returns the sorted list\<close>

text \<open>
  One call of \<open>do_sort\<close> on a list that is not empty, given that \<open>do_sort\<close> returns the
  sorted list on every shorter list and leaves the stack, the configuration and the shared
  states allocated before the call as they were.
\<close>

lemma do_sort_Cons:
  fixes x :: "'a::linorder"
  assumes shorter: "\<And>(w :: 'a list) k t. length w \<le> length xs \<Longrightarrow> 2 * length w + 1 \<le> k \<Longrightarrow>
      \<exists>t'. do_sort k t w = Some (Inr (sort w, t'))
         \<and> chunks t' = chunks t \<and> max_thread_count t' = max_thread_count t
         \<and> end_of_data t' = end_of_data t \<and> threads t \<le> threads t'
         \<and> next_promise t \<le> next_promise t'
         \<and> (\<forall>q<next_promise t. promises t' q = promises t q)"
    and fuel: "2 * length xs + 2 \<le> m"
    and part: "std_partition (\<lambda>val. val < x) xs = (lo, hi)"
  shows "\<exists>s2 s3 s'. do_sort_publish s x xs = (next_promise s, hi, s2)
           \<and> s_stk (chunks s2) = \<lparr>data = lo, promise = next_promise s\<rparr> # s_stk (chunks s)
           \<and> do_sort m s2 hi = Some (Inr (sort hi, s3))
           \<and> do_sort (Suc m) s (x # xs) = Some (Inr (sort lo @ [x] @ sort hi, s'))
           \<and> promises s' (next_promise s) = Some (sort lo)
           \<and> chunks s' = chunks s \<and> max_thread_count s' = max_thread_count s
           \<and> end_of_data s' = end_of_data s \<and> threads s \<le> threads s'
           \<and> next_promise s \<le> next_promise s'
           \<and> (\<forall>q<next_promise s. promises s' q = promises s q)"
proof -
  note parts = std_partition_parts [OF part]
  define l where "l = next_promise s"
  define c where "c = \<lparr>data = lo, promise = l\<rparr>"
  define s1 where "s1 = s\<lparr>promises := (promises s)(l := None), next_promise := Suc l\<rparr>"
  define s2 where "s2 = (if threads s < unat (max_thread_count s)
      then s1\<lparr>chunks := push c (chunks s), threads := Suc (threads s)\<rparr>
      else s1\<lparr>chunks := push c (chunks s)\<rparr>)"
  have publish: "do_sort_publish s x xs = (l, hi, s2)"
    by (simp add: do_sort_publish_def part Let_def l_def c_def s1_def s2_def)
  have s2: "chunks s2 = push c (chunks s)" "next_promise s2 = Suc l"
    "promises s2 = (promises s)(l := None)" "max_thread_count s2 = max_thread_count s"
    "end_of_data s2 = end_of_data s" "threads s \<le> threads s2"
    by (simp_all add: s2_def s1_def)

  \<comment> \<open>the local recursion on what is left of \<open>v\<close>\<close>
  have "length hi \<le> length xs" "2 * length hi + 1 \<le> m"
    using parts(3) fuel by simp_all
  from shorter [OF this, of s2] obtain s3 where
    rest: "do_sort m s2 hi = Some (Inr (sort hi, s3))"
    and s3: "chunks s3 = chunks s2" "max_thread_count s3 = max_thread_count s2"
      "end_of_data s3 = end_of_data s2" "threads s2 \<le> threads s3"
      "next_promise s2 \<le> next_promise s3"
      "\<forall>q<next_promise s2. promises s3 q = promises s2 q"
    by blast
  have not_ready: "promises s3 l = None"
    using s3(6) s2(2,3) by simp

  \<comment> \<open>the first poll pops the chunk pushed above and sorts it\<close>
  from fuel obtain m' where m: "m = Suc m'"
    by (cases m) auto
  have pop_own: "pop (chunks s3) = Inr (Some c, chunks s)"
    by (simp add: s3(1) s2(1) pop_def push_def)
  have "length (data c) \<le> length xs" "2 * length (data c) + 1 \<le> m'"
    using parts(3) fuel by (simp_all add: m c_def)
  from shorter [OF this, of "s3\<lparr>chunks := chunks s\<rparr>"] obtain s4 where
    low: "do_sort m' (s3\<lparr>chunks := chunks s\<rparr>) (data c) = Some (Inr (sort lo, s4))"
    and s4: "chunks s4 = chunks s" "max_thread_count s4 = max_thread_count s3"
      "end_of_data s4 = end_of_data s3" "threads s3 \<le> threads s4"
      "next_promise s3 \<le> next_promise s4"
      "\<forall>q<next_promise s3. promises s4 q = promises s3 q"
    by (auto simp: c_def)
  have still_not_ready: "promises s4 l = None"
    using s4(6) s3(5) s2(2) not_ready by simp
  define s5 where "s5 = s4\<lparr>promises := (promises s4)(l \<mapsto> sort lo)\<rparr>"
  have "set_value (promise c) (sort lo) s4 = Inr s5"
    by (simp add: set_value_def still_not_ready s5_def c_def)
  with low pop_own have poll: "try_sort_chunk m' s3 = Some (Inr s5)"
    by simp

  \<comment> \<open>the second poll finds the future ready\<close>
  from fuel obtain m'' where m': "m' = Suc m''"
    by (cases m') (auto simp: m)
  have ready: "promises s5 l = Some (sort lo)"
    by (simp add: s5_def)
  then have "do_sort_wait m' s5 l = Some (Inr s5)"
    by (simp add: m')
  with poll not_ready have wait: "do_sort_wait m s3 l = Some (Inr s5)"
    by (simp add: m)

  have "do_sort (Suc m) s (x # xs) = Some (Inr (sort lo @ [x] @ sort hi, s5))"
    by (simp add: publish rest wait ready)
  moreover have "s_stk (chunks s2) = \<lparr>data = lo, promise = next_promise s\<rparr> # s_stk (chunks s)"
    by (simp add: s2(1) push_def c_def l_def)
  moreover have "chunks s5 = chunks s" "max_thread_count s5 = max_thread_count s"
    "end_of_data s5 = end_of_data s" "threads s \<le> threads s5"
    "next_promise s \<le> next_promise s5"
    using s2 s3 s4 by (simp_all add: s5_def l_def)
  moreover have "\<forall>q<next_promise s. promises s5 q = promises s q"
    using s2 s3 s4 by (simp add: s5_def l_def)
  ultimately show ?thesis
    using publish rest ready unfolding l_def by blast
qed

text \<open>
  With fuel \<open>2 * length v + 1\<close> or more \<open>do_sort\<close> returns the sorted list from every
  state. It leaves the stack as it found it: every chunk it pushes it pops again itself.
\<close>

lemma do_sort_returns:
  fixes v :: "'a::linorder list"
  assumes "2 * length v + 1 \<le> n"
  shows "\<exists>s'. do_sort n s v = Some (Inr (sort v, s'))
           \<and> chunks s' = chunks s \<and> max_thread_count s' = max_thread_count s
           \<and> end_of_data s' = end_of_data s \<and> threads s \<le> threads s'
           \<and> next_promise s \<le> next_promise s'
           \<and> (\<forall>q<next_promise s. promises s' q = promises s q)"
  using assms
proof (induction "length v" arbitrary: v n s rule: less_induct)
  case less
  from less.prems obtain m where n: "n = Suc m"
    by (cases n) auto
  show ?case
  proof (cases v)
    case Nil
    then show ?thesis
      by (simp add: n)
  next
    case (Cons x xs)
    obtain lo hi where part: "std_partition (\<lambda>val. val < x) xs = (lo, hi)"
      by fastforce
    have fuel: "2 * length xs + 2 \<le> m"
      using less.prems by (simp add: n Cons)
    have sorted: "sort lo @ [x] @ sort hi = sort v"
      unfolding Cons by (rule sorted_around_pivot [OF std_partition_parts(1,2) [OF part]])
    have "\<And>(w :: 'a list) k t. length w \<le> length xs \<Longrightarrow> 2 * length w + 1 \<le> k \<Longrightarrow>
      \<exists>t'. do_sort k t w = Some (Inr (sort w, t'))
         \<and> chunks t' = chunks t \<and> max_thread_count t' = max_thread_count t
         \<and> end_of_data t' = end_of_data t \<and> threads t \<le> threads t'
         \<and> next_promise t \<le> next_promise t'
         \<and> (\<forall>q<next_promise t. promises t' q = promises t q)"
      using less.hyps by (simp add: Cons)
    from do_sort_Cons [OF this fuel part, of s] show ?thesis
      unfolding n Cons sorted [unfolded Cons] by blast
  qed
qed

text \<open>
  With a hardware concurrency of 1 the cap is 0, no worker is ever started and the calling
  thread is the whole program: \<open>parallel_quick_sort\<close> then returns (with fuel
  \<open>2 * length v + 1\<close> or more) a list with the same multiset of elements as \<open>v\<close> in
  which no element is less than its predecessor.
\<close>

lemma parallel_quick_sort_single_thread:
  fixes v :: "'a::linorder list"
  shows "\<exists>res session.
           parallel_quick_sort (2 * length v + 1 + k) 1 v
             = Some (Inr (res, session))
           \<and> mset res = mset v
           \<and> successively (\<lambda>a b. \<not> b < a) res
           \<and> sorted res"
proof (cases "v = []")
  case True
  then show ?thesis
    by (simp add: parallel_quick_sort_def)
next
  case False
  have "2 * length v + 1 \<le> 2 * length v + 1 + k"
    by simp
  from do_sort_returns [OF this, of "sorter_ctor 1"] obtain s' where
    "do_sort (2 * length v + 1 + k) (sorter_ctor 1) v = Some (Inr (sort v, s'))"
    by blast
  with False have
    "parallel_quick_sort (2 * length v + 1 + k) 1 v
       = Some (Inr (sort v, Some (sorter_dtor s')))"
    by (simp add: parallel_quick_sort_def)
  moreover have "successively (\<lambda>a b. \<not> b < a) (sort v)"
    by (rule successively_if_sorted_wrt) (simp add: not_less)
  ultimately show ?thesis
    by simp
qed

text \<open>
  C10: \<open>do_sort\<close> is total. Whatever the state of the sorter, it returns normally on
  every list \<open>v\<close> once the fuel is \<open>2 * length v + 1\<close> or more; and on a list
  \<open>x # xs\<close> both lists it is called on again, what is left of \<open>v\<close> for the local call
  and the data of the chunk pushed for the other, are strictly shorter than \<open>x # xs\<close>,
  the pivot \<open>x\<close> being in neither.
\<close>

theorem do_sort_total:
  fixes v :: "'a::linorder list" and x :: 'a
  shows "(\<exists>res s'. do_sort (2 * length v + 1 + k) s v = Some (Inr (res, s')))
       \<and> (case do_sort_publish s x xs of
            (l, v', s2) \<Rightarrow>
              length v' < length (x # xs)
              \<and> length (data (hd (s_stk (chunks s2)))) < length (x # xs))"
proof
  have "2 * length v + 1 \<le> 2 * length v + 1 + k"
    by simp
  from do_sort_returns [OF this, of s]
  show "\<exists>res s'. do_sort (2 * length v + 1 + k) s v = Some (Inr (res, s'))"
    by blast
next
  obtain lo hi where part: "std_partition (\<lambda>val. val < x) xs = (lo, hi)"
    by fastforce
  from std_partition_parts(3) [OF part]
  show "case do_sort_publish s x xs of
          (l, v', s2) \<Rightarrow>
            length v' < length (x # xs)
            \<and> length (data (hd (s_stk (chunks s2)))) < length (x # xs)"
    by (simp add: do_sort_publish_def part Let_def push_def)
qed

section \<open>One step of do\_sort\<close>


text \<open>
  C4: on \<open>x # xs\<close>, with \<open>l\<close> the future of the chunk pushed and \<open>v'\<close> what is left of
  \<open>v\<close>, the list \<open>do_sort\<close> returns is the value of the future \<open>l\<close> (the sorted data
  of the chunk), then the pivot \<open>x\<close>, then the list \<open>r\<close> that the local call on \<open>v'\<close>
  has returned (the sorted \<open>v'\<close>). Lists are values here: that the source splices the
  nodes and copies no element is not visible.
\<close>

theorem do_sort_low_pivot_high:
  fixes x :: "'a::linorder"
  assumes "do_sort_publish s x xs = (l, v', s2)"
  shows "\<exists>r s3 sorted_low s'.
           do_sort (2 * length xs + 2 + k) s2 v' = Some (Inr (r, s3))
           \<and> promises s' l = Some sorted_low
           \<and> do_sort (Suc (2 * length xs + 2 + k)) s (x # xs)
               = Some (Inr (sorted_low @ [x] @ r, s'))
           \<and> r = sort v'
           \<and> sorted_low = sort (data (hd (s_stk (chunks s2))))"
proof -
  obtain lo hi where part: "std_partition (\<lambda>val. val < x) xs = (lo, hi)"
    by fastforce
  have fuel: "2 * length xs + 2 \<le> 2 * length xs + 2 + k"
    by simp
  from do_sort_Cons [OF do_sort_returns fuel part, of s] assms show ?thesis
    by auto
qed

text \<open>
  The step at \<open>[5, 3, 8, 1, 9, 2, 7]\<close>, with a hardware concurrency of 1.
\<close>

theorem do_sort_low_pivot_high_witness:
  "do_sort_publish (sorter_ctor 1) (5::nat) [3, 8, 1, 9, 2, 7]
     = (0, [9, 8, 7], \<lparr>chunks = \<lparr>s_stk = [\<lparr>data = [3, 2, 1], promise = 0\<rparr>]\<rparr>, threads = 0,
          max_thread_count = 0, end_of_data = False, promises = Map.empty, next_promise = 1\<rparr>)
   \<and> (\<exists>s'. do_sort 15 (sorter_ctor 1) [5, 3, 8, 1, 9, 2, 7::nat]
               = Some (Inr ([1, 2, 3] @ [5] @ [7, 8, 9], s')))"
proof -
  have publish: "do_sort_publish (sorter_ctor 1) (5::nat) [3, 8, 1, 9, 2, 7]
     = (0, [9, 8, 7], \<lparr>chunks = \<lparr>s_stk = [\<lparr>data = [3, 2, 1], promise = 0\<rparr>]\<rparr>, threads = 0,
          max_thread_count = 0, end_of_data = False, promises = Map.empty, next_promise = 1\<rparr>)"
    by (simp add: do_sort_publish_def sorter_ctor_def ConcurrentStack_ctor_def push_def fun_upd_def)
  from do_sort_low_pivot_high [OF publish, of 0] publish show ?thesis
    by (auto simp: numeral_eq_Suc)
qed

section \<open>The base case\<close>

text \<open>
  C6, as stated, fails on a list of one element: only the empty list is a base case.
  With fuel for one call and none below it \<open>do_sort\<close> does not return on \<open>[1]\<close>; it
  packages the empty list of smaller elements as a chunk with a fresh promise and pushes
  it, and when it returns the sorter is not what it was: a shared state has been allocated
  and fulfilled.
\<close>

theorem do_sort_singleton_publishes_chunk:
  "do_sort 1 (sorter_ctor 1) [1::nat] = None
   \<and> do_sort_publish (sorter_ctor 1) (1::nat) []
       = (0, [], \<lparr>chunks = \<lparr>s_stk = [\<lparr>data = [], promise = 0\<rparr>]\<rparr>, threads = 0,
            max_thread_count = 0, end_of_data = False, promises = Map.empty, next_promise = 1\<rparr>)
   \<and> do_sort 3 (sorter_ctor 1) [1::nat]
       = Some (Inr ([1], \<lparr>chunks = \<lparr>s_stk = []\<rparr>, threads = 0, max_thread_count = 0,
            end_of_data = False, promises = [0 \<mapsto> []], next_promise = 1\<rparr>))
   \<and> do_sort 3 (sorter_ctor 1) [1::nat] \<noteq> Some (Inr ([1], sorter_ctor 1))"
  by (simp add: numeral_3_eq_3 do_sort_publish_def sorter_ctor_def ConcurrentStack_ctor_def
      push_def pop_def set_value_def fun_upd_def)

text \<open>
  C6, amended: \<open>do_sort\<close> returns the empty list at once and leaves the sorter as it
  was. In a session without workers (none started, and a cap of 0, so that none is started)
  it returns a list of one element unchanged too, but through the general step: the element
  is taken as pivot, an empty chunk is pushed with a fresh promise, \<open>do_sort\<close> calls
  itself on the empty rest, and the chunk is popped, sorted and its promise fulfilled with
  the empty list.
\<close>

theorem do_sort_empty_and_singleton:
  fixes x :: "'a::linorder"
  shows "do_sort (Suc n) s [] = Some (Inr ([], s))
   \<and> (threads s = 0 \<and> max_thread_count s = 0 \<longrightarrow>
        do_sort (Suc (Suc (Suc n))) s [x]
          = Some (Inr ([x],
              s\<lparr>promises := (promises s)(next_promise s \<mapsto> []),
                next_promise := Suc (next_promise s)\<rparr>)))"
  by (cases s) (simp add: do_sort_publish_def push_def pop_def set_value_def Let_def)

text \<open>
  The amended statement at the list \<open>[7]\<close> in the session of a hardware concurrency of 1.
\<close>

theorem do_sort_empty_and_singleton_witness:
  "threads (sorter_ctor 1 :: nat sorter) = 0
   \<and> max_thread_count (sorter_ctor 1 :: nat sorter) = 0
   \<and> do_sort 3 (sorter_ctor 1) [7::nat]
       = Some (Inr ([7], \<lparr>chunks = \<lparr>s_stk = []\<rparr>, threads = 0, max_thread_count = 0,
            end_of_data = False, promises = [0 \<mapsto> []], next_promise = 1\<rparr>))"
proof -
  have no_workers: "threads (sorter_ctor 1 :: nat sorter) = 0
      \<and> max_thread_count (sorter_ctor 1 :: nat sorter) = 0"
    by (simp add: sorter_ctor_def)
  from do_sort_empty_and_singleton [of 0 "sorter_ctor 1 :: nat sorter" 7] no_workers
  show ?thesis
    by (simp add: numeral_3_eq_3 sorter_ctor_def ConcurrentStack_ctor_def)
qed

section \<open>The sorter session\<close>

text \<open>
  C7, as stated, fails when the hardware concurrency is reported as 0: the unsigned
  subtraction wraps, \<open>max_thread_count\<close> is \<open>2 ^ 32 - 1\<close> and not 0, and the first
  chunk published already starts a worker.
\<close>

theorem max_thread_count_wraps_at_zero:
  "max_thread_count (sorter_ctor 0 :: nat sorter) = 4294967295
   \<and> unat (max_thread_count (sorter_ctor 0 :: nat sorter)) \<noteq> 0
   \<and> threads (snd (snd (do_sort_publish (sorter_ctor 0) (1::nat) []))) = 1"
  by (simp add: sorter_ctor_def do_sort_publish_def ConcurrentStack_ctor_def push_def
      unsigned_minus_1_eq_mask mask_eq_exp_minus_1)

text \<open>
  C7, amended: \<open>max_thread_count\<close> is the hardware concurrency minus one in unsigned
  32-bit arithmetic, that is one less than a hardware concurrency of 1 or more, and
  \<open>2 ^ 32 - 1\<close> for a hardware concurrency of 0.
\<close>

theorem max_thread_count_unsigned:
  "max_thread_count (sorter_ctor hardware_concurrency) = hardware_concurrency - 1
   \<and> unat (max_thread_count (sorter_ctor hardware_concurrency))
       = (if hardware_concurrency = 0 then 2 ^ 32 - 1 else unat hardware_concurrency - 1)"
  by (simp add: sorter_ctor_def unat_minus_one unsigned_minus_1_eq_mask mask_eq_exp_minus_1)

text \<open>
  C9: on the empty list \<open>parallel_quick_sort\<close> returns the empty list whatever the fuel
  and constructs no session (so no worker can be started); on a list that is not empty it
  constructs one sorter, calls \<open>do_sort\<close> on it once with the whole list, returns what
  that call returns and destroys the sorter.
\<close>

theorem parallel_quick_sort_sessions:
  fixes x :: "'a::linorder"
  shows "parallel_quick_sort n hardware_concurrency ([] :: 'a list) = Some (Inr ([], None))
   \<and> (\<exists>res s'.
         do_sort (2 * length (x # xs) + 1 + k) (sorter_ctor hardware_concurrency) (x # xs)
           = Some (Inr (res, s'))
         \<and> parallel_quick_sort (2 * length (x # xs) + 1 + k) hardware_concurrency (x # xs)
           = Some (Inr (res, Some (sorter_dtor s'))))"
proof
  show "parallel_quick_sort n hardware_concurrency ([] :: 'a list) = Some (Inr ([], None))"
    by (simp add: parallel_quick_sort_def)
next
  have "2 * length (x # xs) + 1 \<le> 2 * length (x # xs) + 1 + k"
    by simp
  from do_sort_returns [OF this, of "sorter_ctor hardware_concurrency"] obtain s' where
    "do_sort (2 * length (x # xs) + 1 + k) (sorter_ctor hardware_concurrency) (x # xs)
       = Some (Inr (sort (x # xs), s'))"
    by blast
  then show "\<exists>res s'.
         do_sort (2 * length (x # xs) + 1 + k) (sorter_ctor hardware_concurrency) (x # xs)
           = Some (Inr (res, s'))
         \<and> parallel_quick_sort (2 * length (x # xs) + 1 + k) hardware_concurrency (x # xs)
           = Some (Inr (res, Some (sorter_dtor s')))"
    by (simp add: parallel_quick_sort_def)
qed

section \<open>Polling an empty stack\<close>

text \<open>
  C1: with a worker started the program does not return the sorted list in every run. On
  the input \<open>[5, 3, 8, 1, 9, 2, 7]\<close> with a hardware concurrency of 2 the first step
  pushes the chunk \<open>[3, 2, 1]\<close> and starts one worker.

  If the worker takes no step until the calling thread has left \<open>do_sort\<close> with the sorted
  list, its first poll, before the destructor sets the stop flag, finds the stack empty and
  raises \<open>EmptyStack\<close>, which no thread catches.

  If the worker takes the chunk as soon as it is pushed and is still sorting it when the
  calling thread, back from sorting \<open>[9, 8, 7]\<close>, polls the future, the future is not
  ready, the stack is empty, and \<open>EmptyStack\<close> leaves \<open>do_sort\<close> and
  \<open>parallel_quick_sort\<close> in place of the sorted list.
\<close>

theorem parallel_quick_sort_worker_polls_empty_stack:
  "do_sort_publish (sorter_ctor 2) (5::nat) [3, 8, 1, 9, 2, 7]
     = (0, [9, 8, 7], \<lparr>chunks = \<lparr>s_stk = [\<lparr>data = [3, 2, 1], promise = 0\<rparr>]\<rparr>, threads = 1,
          max_thread_count = 1, end_of_data = False, promises = Map.empty, next_promise = 1\<rparr>)
   \<and> (\<exists>s'. do_sort 15 (sorter_ctor 2) [5, 3, 8, 1, 9, 2, 7::nat]
               = Some (Inr ([1, 2, 3, 5, 7, 8, 9], s'))
             \<and> \<not> end_of_data s'
             \<and> sort_thread (Suc n) s' = Some (Inl EmptyStack))
   \<and> (\<exists>s3. do_sort 14 \<lparr>chunks = \<lparr>s_stk = []\<rparr>, threads = 1, max_thread_count = 1,
                 end_of_data = False, promises = Map.empty, next_promise = 1\<rparr> [9, 8, 7::nat]
               = Some (Inr ([7, 8, 9], s3))
             \<and> do_sort_wait 14 s3 0 = Some (Inl EmptyStack))"
proof (intro conjI)
  show "do_sort_publish (sorter_ctor 2) (5::nat) [3, 8, 1, 9, 2, 7]
     = (0, [9, 8, 7], \<lparr>chunks = \<lparr>s_stk = [\<lparr>data = [3, 2, 1], promise = 0\<rparr>]\<rparr>, threads = 1,
          max_thread_count = 1, end_of_data = False, promises = Map.empty, next_promise = 1\<rparr>)"
    by (simp add: do_sort_publish_def sorter_ctor_def ConcurrentStack_ctor_def push_def fun_upd_def)
next
  have "2 * length [5, 3, 8, 1, 9, 2, 7::nat] + 1 \<le> 15"
    by simp
  from do_sort_returns [OF this, of "sorter_ctor 2"] obtain s' where
    run: "do_sort 15 (sorter_ctor 2) [5, 3, 8, 1, 9, 2, 7::nat]
            = Some (Inr (sort [5, 3, 8, 1, 9, 2, 7], s'))"
    and s': "chunks s' = chunks (sorter_ctor 2 :: nat sorter)"
      "end_of_data s' = end_of_data (sorter_ctor 2 :: nat sorter)"
    by blast
  have "sort [5, 3, 8, 1, 9, 2, 7::nat] = [1, 2, 3, 5, 7, 8, 9]"
    by (simp add: sort_key_def)
  moreover have "\<not> end_of_data s'"
    by (simp add: s' sorter_ctor_def)
  moreover have "sort_thread (Suc n) s' = Some (Inl EmptyStack)"
    using \<open>\<not> end_of_data s'\<close> by (simp add: s' sorter_ctor_def ConcurrentStack_ctor_def pop_def)
  ultimately show "\<exists>s'. do_sort 15 (sorter_ctor 2) [5, 3, 8, 1, 9, 2, 7::nat]
               = Some (Inr ([1, 2, 3, 5, 7, 8, 9], s'))
             \<and> \<not> end_of_data s'
             \<and> sort_thread (Suc n) s' = Some (Inl EmptyStack)"
    using run by auto
next
  let ?s = "\<lparr>chunks = \<lparr>s_stk = []\<rparr>, threads = 1, max_thread_count = 1,
      end_of_data = False, promises = (Map.empty :: nat \<Rightarrow> nat list option), next_promise = 1\<rparr>"
  have "2 * length [9, 8, 7::nat] + 1 \<le> 14"
    by simp
  from do_sort_returns [OF this, of ?s] obtain s3 where
    run: "do_sort 14 ?s [9, 8, 7::nat] = Some (Inr (sort [9, 8, 7], s3))"
    and s3: "chunks s3 = chunks ?s" "\<forall>q<next_promise ?s. promises s3 q = promises ?s q"
    by blast
  have "sort [9, 8, 7::nat] = [7, 8, 9]"
    by (simp add: sort_key_def)
  moreover have "promises s3 0 = None"
    using s3(2) by simp
  then have "do_sort_wait 14 s3 0 = Some (Inl EmptyStack)"
    by (simp add: numeral_eq_Suc s3(1) pop_def)
  ultimately show "\<exists>s3. do_sort 14 ?s [9, 8, 7::nat] = Some (Inr ([7, 8, 9], s3))
             \<and> do_sort_wait 14 s3 0 = Some (Inl EmptyStack)"
    using run by auto
qed

text \<open>
  C2: \<open>try_sort_chunk\<close> calls the throwing \<open>pop\<close> with no check of emptiness before
  it, and the test of the pointer after it never sees a null pointer. Two runs on the input
  \<open>[1]\<close> with a hardware concurrency of 2 reach a poll of the empty stack with the stop
  flag clear.

  In the first the calling thread starts one worker and leaves \<open>do_sort\<close> before the
  worker has taken a step; the first poll of the worker, in that state, raises
  \<open>EmptyStack\<close>.

  In the second the worker takes the chunk as soon as it is published and is still sorting
  it when the calling thread, back from the local call on the empty rest, polls the future:
  the future is not ready, the stack is empty, and \<open>EmptyStack\<close> leaves \<open>do_sort\<close>.
\<close>

theorem try_sort_chunk_raises_EmptyStack:
  "do_sort 3 (sorter_ctor 2) [1::nat]
     = Some (Inr ([1], \<lparr>chunks = \<lparr>s_stk = []\<rparr>, threads = 1, max_thread_count = 1,
          end_of_data = False, promises = [0 \<mapsto> []], next_promise = 1\<rparr>))
   \<and> try_sort_chunk n \<lparr>chunks = \<lparr>s_stk = []\<rparr>, threads = 1, max_thread_count = 1,
          end_of_data = False, promises = [0 \<mapsto> ([] :: nat list)], next_promise = 1\<rparr>
       = Some (Inl EmptyStack)
   \<and> do_sort_publish (sorter_ctor 2) (1::nat) []
       = (0, [], \<lparr>chunks = \<lparr>s_stk = [\<lparr>data = [], promise = 0\<rparr>]\<rparr>, threads = 1,
            max_thread_count = 1, end_of_data = False, promises = Map.empty,
            next_promise = 1\<rparr>)
   \<and> pop \<lparr>s_stk = [\<lparr>data = ([] :: nat list), promise = 0\<rparr>]\<rparr>
       = Inr (Some \<lparr>data = [], promise = 0\<rparr>, \<lparr>s_stk = []\<rparr>)
   \<and> do_sort_wait (Suc n) \<lparr>chunks = \<lparr>s_stk = []\<rparr>, threads = 1, max_thread_count = 1,
          end_of_data = False, promises = (Map.empty :: nat \<Rightarrow> nat list option),
          next_promise = 1\<rparr> 0
       = Some (Inl EmptyStack)"
  by (simp add: numeral_3_eq_3 do_sort_publish_def sorter_ctor_def ConcurrentStack_ctor_def
      push_def pop_def set_value_def fun_upd_def)

text \<open>
  C3: in the same state the loop of the worker, entered with the stop flag clear, is left
  by the exception \<open>EmptyStack\<close> on its first poll; no thread catches it.
\<close>

theorem sort_thread_leaves_loop_on_empty_stack:
  "do_sort 3 (sorter_ctor 2) [1::nat]
     = Some (Inr ([1], \<lparr>chunks = \<lparr>s_stk = []\<rparr>, threads = 1, max_thread_count = 1,
          end_of_data = False, promises = [0 \<mapsto> []], next_promise = 1\<rparr>))
   \<and> sort_thread (Suc n) \<lparr>chunks = \<lparr>s_stk = []\<rparr>, threads = 1, max_thread_count = 1,
          end_of_data = False, promises = [0 \<mapsto> ([] :: nat list)], next_promise = 1\<rparr>
       = Some (Inl EmptyStack)"
  by (simp add: numeral_3_eq_3 do_sort_publish_def sorter_ctor_def ConcurrentStack_ctor_def
      push_def pop_def set_value_def fun_upd_def)

end
